theory Spec2Isabelle
  imports Main "HOL-Library.Word"
begin

section \<open>The weak cache of \<open>cache.go\<close>\<close>

text \<open>
  A shallow embedding of \<open>cache.go\<close>: a reference-counting cache whose records live in
  two Go maps, \<open>reachable\<close> and \<open>unreachable\<close>. Every method body runs under the
  mutex \<open>c.mu\<close>, so each method is one atomic transition on the cache; a concurrent
  execution is an interleaving of such transitions (\<open>run\<close> below).

  Machine types: \<open>int64\<close> (also \<open>time.Duration\<close> and the results of \<open>UnixNano\<close>) is a
  64-bit word read in two's complement (\<open><s\<close> is the signed order); \<open>uint64\<close> and
  \<open>uint\<close> (on a 64-bit platform) are 64-bit words read unsigned. \<open>+\<close> and \<open>-\<close> wrap.
\<close>

type_synonym int64 = "64 word"
type_synonym uint64 = "64 word"
type_synonym uint = "64 word"

subsection \<open>Records\<close>

text \<open>\<open>type Record struct\<close>. The zero value of a field stands for "unset".\<close>

record 'v Record =
  Value :: 'v
  minTTL :: int64
  expires :: int64
  refs :: uint
  lastUnref :: int64

text \<open>\<open>func (r Record) isExpired(now int64) bool\<close>\<close>

definition isExpired :: "'v Record \<Rightarrow> int64 \<Rightarrow> bool" where
  "isExpired r now =
     (if 0 <s lastUnref r \<and> lastUnref r + minTTL r <s now then True
      else if 0 <s expires r \<and> expires r <s now then True
      else False)"

text \<open>
  The expiry predicate in the words of the specification, over the two optional
  timestamps of its data model. A timestamp field is "set" when the code's own test
  \<open>> 0\<close> holds of it.
\<close>

definition lastUnreferencedAt :: "'v Record \<Rightarrow> int64 option" where
  "lastUnreferencedAt r = (if 0 <s lastUnref r then Some (lastUnref r) else None)"

definition expiresAt :: "'v Record \<Rightarrow> int64 option" where
  "expiresAt r = (if 0 <s expires r then Some (expires r) else None)"

definition isExpired_spec :: "'v Record \<Rightarrow> int64 \<Rightarrow> bool" where
  "isExpired_spec r now =
     ((case lastUnreferencedAt r of Some t \<Rightarrow> t + minTTL r <s now | None \<Rightarrow> False) \<or>
      (case expiresAt r of Some t \<Rightarrow> t <s now | None \<Rightarrow> False))"

subsection \<open>The cache\<close>

type_synonym 'v recordMap = "uint64 \<rightharpoonup> 'v Record"

text \<open>The state of the channel \<open>quit\<close>: nothing is ever sent on it, it is only closed.\<close>

datatype chan = Open | Closed

text \<open>
  \<open>type Cache struct\<close>. The mutex is the atomicity of the transitions; the seed of
  \<open>maphash\<close> is kept as the number that stands for it.
\<close>

record 'v Cache =
  gcInterval :: int64
  reachable :: "'v recordMap"
  unreachable :: "'v recordMap"
  seed :: uint64
  quit :: chan

text \<open>
  \<open>func New(gcInterval time.Duration) *Cache\<close>; the result of \<open>maphash.MakeSeed()\<close>
  is an input. Starting \<open>gcLoop\<close> makes the ticks of \<open>gcTick\<close> possible.
\<close>

definition New :: "int64 \<Rightarrow> uint64 \<Rightarrow> 'v Cache" where
  "New gc_interval sd =
     \<lparr>gcInterval = gc_interval, reachable = Map.empty, unreachable = Map.empty,
      seed = sd, quit = Open\<rparr>"

text \<open>\<open>func (c *Cache) Len() int\<close>\<close>

definition Len :: "'v Cache \<Rightarrow> nat" where
  "Len c = card (dom (reachable c)) + card (dom (unreachable c))"

text \<open>
  \<open>func (c *Cache) Close()\<close>: the builtin \<open>close\<close> panics on a channel that is
  already closed.
\<close>

datatype panic = CloseOfClosedChannel

definition Close :: "'v Cache \<Rightarrow> panic + 'v Cache" where
  "Close c = (case quit c of Closed \<Rightarrow> Inl CloseOfClosedChannel | Open \<Rightarrow> Inr (c\<lparr>quit := Closed\<rparr>))"

text \<open>
  \<open>func (c *Cache) index(key string) uint64\<close>: the hash of the standard library,
  a function of the seed and the key, is a parameter.
\<close>

type_synonym hasher = "uint64 \<Rightarrow> string \<Rightarrow> uint64"

definition index :: "hasher \<Rightarrow> 'v Cache \<Rightarrow> string \<Rightarrow> uint64" where
  "index h c key = h (seed c) key"

subsection \<open>The sweep of \<open>gcLoop\<close>\<close>

text \<open>
  One iteration of the loop of \<open>gcLoop\<close> in the case \<open>now := <-ticker.C\<close>. The body of
  \<open>for index, rec := range c.unreachable\<close> is \<open>gc_visit\<close>; the order \<open>ks\<close> in which
  \<open>range\<close> produces the keys is chosen by the runtime and is an input.
\<close>

definition gc_visit :: "int64 \<Rightarrow> uint64 \<Rightarrow> 'v recordMap \<Rightarrow> 'v recordMap" where
  "gc_visit nowNano i u =
     (case u i of
        Some rec \<Rightarrow> if isExpired rec nowNano then u(i := None) else u
      | None \<Rightarrow> u)"

definition gcTick :: "uint64 list \<Rightarrow> int64 \<Rightarrow> 'v Cache \<Rightarrow> 'v Cache" where
  "gcTick ks nowNano c = c\<lparr>unreachable := fold (gc_visit nowNano) ks (unreachable c)\<rparr>"

subsection \<open>Fetching\<close>

text \<open>
  The producer \<open>type fetch func() (interface{}, error)\<close> is a Go closure: it may have
  effects of its own. It is a function on the state \<open>'w\<close> of the rest of the program,
  returning \<open>Inl err\<close> when \<open>err != nil\<close> and \<open>Inr value\<close> otherwise.
\<close>

type_synonym ('v, 'e, 'w) fetcher = "'w \<Rightarrow> ('e + 'v) \<times> 'w"

text \<open>The closure \<open>get\<close> inside \<open>fetch\<close>: the record found, and the cache after its deletions.\<close>

definition get :: "uint64 \<Rightarrow> int64 \<Rightarrow> 'v Cache \<Rightarrow> 'v Record option \<times> 'v Cache" where
  "get i now c =
     (case unreachable c i of
        Some rec \<Rightarrow>
          (let c' = c\<lparr>unreachable := (unreachable c)(i := None)\<rparr> in
           if isExpired rec now then (None, c') else (Some rec, c'))
      | None \<Rightarrow>
          (case reachable c i of
             Some rec \<Rightarrow>
               if isExpired rec now then (None, c\<lparr>reachable := (reachable c)(i := None)\<rparr>)
               else (Some rec, c)
           | None \<Rightarrow> (None, c)))"

text \<open>The last three statements of \<open>fetch\<close>: \<open>rec.refs++\<close>, the store, the return.\<close>

definition store_ref :: "uint64 \<Rightarrow> 'v Record \<Rightarrow> 'v Cache \<Rightarrow> 'v Record \<times> 'v Cache" where
  "store_ref i rec c =
     (let rec' = rec\<lparr>refs := refs rec + 1\<rparr> in
      (rec', c\<lparr>reachable := (reachable c)(i \<mapsto> rec')\<rparr>))"

text \<open>
  \<open>func (c *Cache) fetch(index uint64, minTTL, maxTTL time.Duration, fetch fetch)\<close>.
  The reading \<open>now\<close> of the clock is an input; \<open>now.Add(maxTTL).UnixNano()\<close> is the sum
  in \<open>int64\<close>. The handle returned is a pointer to a copy of the record that no map
  aliases: it is the record value.
\<close>

definition fetch ::
  "uint64 \<Rightarrow> int64 \<Rightarrow> int64 \<Rightarrow> ('v, 'e, 'w) fetcher \<Rightarrow> int64 \<Rightarrow> 'v Cache \<times> 'w
     \<Rightarrow> ('e + 'v Record) \<times> 'v Cache \<times> 'w" where
  "fetch i min_ttl max_ttl produce now s =
     (case s of (c, w) \<Rightarrow>
        (case get i now c of
           (Some rec, c1) \<Rightarrow>
             (case store_ref i rec c1 of (h, c2) \<Rightarrow> (Inr h, c2, w))
         | (None, c1) \<Rightarrow>
             (case produce w of
                (Inl err, w') \<Rightarrow> (Inl err, c1, w')
              | (Inr val, w') \<Rightarrow>
                  (let rec = \<lparr>Value = val, minTTL = min_ttl,
                              expires = (if 0 <s max_ttl then now + max_ttl else 0),
                              refs = 0, lastUnref = 0\<rparr>
                   in case store_ref i rec c1 of (h, c2) \<Rightarrow> (Inr h, c2, w')))))"

text \<open>
  \<open>func (c *Cache) Fetch(key string, minTTL, maxTTL time.Duration, fetch fetch)\<close>.
  The finalizer it sets on the handle runs \<open>unref\<close> on the same index at some later
  time: that is a later \<open>OpUnref\<close> transition.
\<close>

definition Fetch ::
  "hasher \<Rightarrow> string \<Rightarrow> int64 \<Rightarrow> int64 \<Rightarrow> ('v, 'e, 'w) fetcher \<Rightarrow> int64 \<Rightarrow> 'v Cache \<times> 'w
     \<Rightarrow> ('e + 'v Record) \<times> 'v Cache \<times> 'w" where
  "Fetch h key min_ttl max_ttl produce now s =
     fetch (index h (fst s) key) min_ttl max_ttl produce now s"

text \<open>\<open>func (c *Cache) unref(index uint64)\<close>, with the reading of the clock as an input.\<close>

definition unref :: "uint64 \<Rightarrow> int64 \<Rightarrow> 'v Cache \<Rightarrow> 'v Cache" where
  "unref i now c =
     (case reachable c i of
        None \<Rightarrow> c
      | Some rec0 \<Rightarrow>
          (let rec = rec0\<lparr>refs := refs rec0 - 1\<rparr> in
           if 0 < refs rec then c\<lparr>reachable := (reachable c)(i \<mapsto> rec)\<rparr>
           else c\<lparr>reachable := (reachable c)(i := None),
                  unreachable := (unreachable c)(i \<mapsto> rec\<lparr>lastUnref := now\<rparr>)\<rparr>))"

subsection \<open>Executions\<close>

text \<open>
  The record that the closure \<open>get\<close> examines: it looks in \<open>unreachable\<close> first and
  in \<open>reachable\<close> only when the index is absent there.
\<close>

definition found :: "uint64 \<Rightarrow> 'v Cache \<Rightarrow> 'v Record option" where
  "found i c = (case unreachable c i of Some rec \<Rightarrow> Some rec | None \<Rightarrow> reachable c i)"

text \<open>
  The operations that run on a cache, each under the mutex: a call of \<open>Fetch\<close>, a run of
  \<open>unref\<close> (started by a finalizer), a tick of \<open>gcLoop\<close>, and a call of \<open>Close\<close>,
  whose panic leaves the cache as it was. Each carries what it reads from its
  environment: the clock, and for a tick the order of \<open>range\<close>.
\<close>

datatype ('v, 'e, 'w) op =
    OpFetch string int64 int64 "('v, 'e, 'w) fetcher" int64
  | OpUnref uint64 int64
  | OpTick "uint64 list" int64
  | OpClose

fun step :: "hasher \<Rightarrow> ('v, 'e, 'w) op \<Rightarrow> 'v Cache \<times> 'w \<Rightarrow> 'v Cache \<times> 'w" where
  "step h (OpFetch key min_ttl max_ttl produce now) s = snd (Fetch h key min_ttl max_ttl produce now s)"
| "step h (OpUnref i now) s = (unref i now (fst s), snd s)"
| "step h (OpTick ks now) s = (gcTick ks now (fst s), snd s)"
| "step h OpClose s = (case Close (fst s) of Inr c' \<Rightarrow> (c', snd s) | Inl _ \<Rightarrow> s)"

fun run :: "hasher \<Rightarrow> ('v, 'e, 'w) op list \<Rightarrow> 'v Cache \<times> 'w \<Rightarrow> 'v Cache \<times> 'w" where
  "run h [] s = s"
| "run h (x # xs) s = run h xs (step h x s)"

text \<open>
  What the reference-count invariant assumes of the environment. The clock that
  \<open>unref\<close> reads is after the Unix epoch (\<open>UnixNano() > 0\<close>), and a \<open>Fetch\<close> that finds
  a live record does not find its counter at the largest \<open>uint\<close>: every counted
  reference is a handle in memory, or a finalizer that has not run yet.
\<close>

fun admissible :: "hasher \<Rightarrow> ('v, 'e, 'w) op \<Rightarrow> 'v Cache \<times> 'w \<Rightarrow> bool" where
  "admissible h (OpFetch key min_ttl max_ttl produce now) s =
     (case found (index h (fst s) key) (fst s) of
        Some rec \<Rightarrow> isExpired rec now \<or> refs rec \<noteq> - 1
      | None \<Rightarrow> True)"
| "admissible h (OpUnref i now) s = (0 <s now)"
| "admissible h (OpTick ks now) s = True"
| "admissible h OpClose s = True"

fun admissible_run :: "hasher \<Rightarrow> ('v, 'e, 'w) op list \<Rightarrow> 'v Cache \<times> 'w \<Rightarrow> bool" where
  "admissible_run h [] s = True"
| "admissible_run h (x # xs) s = (admissible h x s \<and> admissible_run h xs (step h x s))"

text \<open>The invariants of the two maps.\<close>

definition disjoint_maps :: "'v Cache \<Rightarrow> bool" where
  "disjoint_maps c = (dom (reachable c) \<inter> dom (unreachable c) = {})"

definition finite_maps :: "'v Cache \<Rightarrow> bool" where
  "finite_maps c = (finite (dom (reachable c)) \<and> finite (dom (unreachable c)))"

definition refs_inv :: "'v Cache \<Rightarrow> bool" where
  "refs_inv c =
     ((\<forall>i r. reachable c i = Some r \<longrightarrow> 1 \<le> refs r) \<and>
      (\<forall>i r. unreachable c i = Some r \<longrightarrow> refs r = 0 \<and> 0 <s lastUnref r))"

text \<open>
  What \<open>get\<close> leaves of the cache when it returns \<open>nil\<close>: the record it found at the
  index, which is then an expired one, is deleted from the map it was found in.
\<close>

definition evicted :: "uint64 \<Rightarrow> 'v Cache \<Rightarrow> 'v Cache" where
  "evicted i c =
     c\<lparr>reachable := (if unreachable c i = None then (reachable c)(i := None) else reachable c),
       unreachable := (unreachable c)(i := None)\<rparr>"

subsection \<open>Sample inputs\<close>

text \<open>
  The producers of \<open>cache_test.go\<close>, which return \<open>("value", nil)\<close>, and one that
  fails; the state of the program counts their calls. The hash of the samples adds the
  length of the key to the seed.
\<close>

definition value_producer :: "string \<Rightarrow> (string, string, nat) fetcher" where
  "value_producer v = (\<lambda>n. (Inr v, Suc n))"

definition error_producer :: "string \<Rightarrow> (string, string, nat) fetcher" where
  "error_producer e = (\<lambda>n. (Inl e, Suc n))"

definition sample_hash :: hasher where
  "sample_hash sd key = sd + of_nat (length key)"

definition sample_cache :: "string Cache" where
  "sample_cache =
     \<lparr>gcInterval = 10,
      reachable = [1 \<mapsto> \<lparr>Value = ''a'', minTTL = 0, expires = 150, refs = 2, lastUnref = 0\<rparr>],
      unreachable = [2 \<mapsto> \<lparr>Value = ''b'', minTTL = 50, expires = 0, refs = 0, lastUnref = 100\<rparr>,
                     3 \<mapsto> \<lparr>Value = ''c'', minTTL = 500, expires = 0, refs = 0, lastUnref = 100\<rparr>],
      seed = 0, quit = Open\<rparr>"

text \<open>
  The cache of \<open>TestMaxTTL\<close> after its first \<open>Fetch\<close>, made at time 1 with
  \<open>maxTTL = 100\<close>, and the cache of \<open>TestMinTTL\<close> after its second \<open>Fetch\<close>: the first
  was made at time 1 with \<open>minTTL = 100\<close>, its handle was collected at time 2, and the
  second \<open>Fetch\<close> came at time 3.
\<close>

definition aged_cache :: "string Cache" where
  "aged_cache =
     (New 10 7)\<lparr>reachable :=
       [10 \<mapsto> \<lparr>Value = ''value'', minTTL = 0, expires = 101, refs = 1, lastUnref = 0\<rparr>]\<rparr>"

definition revived_cache :: "string Cache" where
  "revived_cache =
     (New 10 7)\<lparr>reachable :=
       [10 \<mapsto> \<lparr>Value = ''value'', minTTL = 100, expires = 0, refs = 1, lastUnref = 2\<rparr>]\<rparr>"

text \<open>
  An execution on a new cache: two keys are fetched at time 1, and the handle of the
  first is collected at time 2.
\<close>

definition sample_ops :: "(string, string, nat) op list" where
  "sample_ops =
     [OpFetch ''key'' 100 0 (value_producer ''value'') 1,
      OpFetch ''ab'' 0 0 (value_producer ''x'') 1,
      OpUnref 10 2]"

section \<open>The expiry predicate\<close>

text \<open>
  C7. \<open>isExpired r now\<close> holds exactly when the last-unreferenced timestamp is set and
  \<open>lastUnref + minTTL < now\<close>, or the expiry is set and \<open>expires < now\<close>; a record with
  both timestamps unset never expires, and both comparisons are strict: a record whose
  grace period or whose expiry ends exactly at \<open>now\<close> is not expired.
\<close>

theorem isExpired_iff_spec:
  "(isExpired r now \<longleftrightarrow> isExpired_spec r now) \<and>
   (lastUnref r = 0 \<and> expires r = 0 \<longrightarrow> \<not> isExpired r now) \<and>
   (lastUnref r + minTTL r = now \<and> expires r = 0 \<longrightarrow> \<not> isExpired r now) \<and>
   (lastUnref r = 0 \<and> expires r = now \<longrightarrow> \<not> isExpired r now)"
  by (simp add: isExpired_def isExpired_spec_def lastUnreferencedAt_def expiresAt_def)

theorem isExpired_iff_spec_witness:
  "isExpired \<lparr>Value = ''v'', minTTL = 100, expires = 0, refs = 0, lastUnref = 2\<rparr> 103 \<and>
   \<not> isExpired \<lparr>Value = ''v'', minTTL = 100, expires = 0, refs = 0, lastUnref = 2\<rparr> 102 \<and>
   \<not> isExpired \<lparr>Value = ''v'', minTTL = 100, expires = 0, refs = 1, lastUnref = 0\<rparr> 102 \<and>
   \<not> isExpired \<lparr>Value = ''v'', minTTL = 100, expires = 102, refs = 1, lastUnref = 0\<rparr> 102"
  using isExpired_iff_spec
    [of "\<lparr>Value = ''v'', minTTL = 100, expires = 0, refs = 0, lastUnref = 2\<rparr>" 103]
    isExpired_iff_spec
    [of "\<lparr>Value = ''v'', minTTL = 100, expires = 0, refs = 0, lastUnref = 2\<rparr>" 102]
    isExpired_iff_spec
    [of "\<lparr>Value = ''v'', minTTL = 100, expires = 0, refs = 1, lastUnref = 0\<rparr>" 102]
    isExpired_iff_spec
    [of "\<lparr>Value = ''v'', minTTL = 100, expires = 102, refs = 1, lastUnref = 0\<rparr>" 102]
  by (simp add: isExpired_spec_def lastUnreferencedAt_def expiresAt_def word_sless_alt)

section \<open>The sweep\<close>

lemma gc_visit_apply:
  "gc_visit now k u i =
     (if i = k
      then (case u k of Some r \<Rightarrow> if isExpired r now then None else Some r | None \<Rightarrow> None)
      else u i)"
  by (simp add: gc_visit_def split: option.splits)

lemma fold_gc_visit:
  "fold (gc_visit now) ks u i =
     (if i \<in> set ks
      then (case u i of Some r \<Rightarrow> if isExpired r now then None else Some r | None \<Rightarrow> None)
      else u i)"
proof (induction ks arbitrary: u)
  case Nil
  show ?case by simp
next
  case (Cons k ks)
  have "fold (gc_visit now) (k # ks) u i = fold (gc_visit now) ks (gc_visit now k u) i"
    by simp
  also have "\<dots> =
     (if i \<in> set ks
      then (case gc_visit now k u i of
              Some r \<Rightarrow> if isExpired r now then None else Some r | None \<Rightarrow> None)
      else gc_visit now k u i)"
    by (rule Cons.IH)
  also have "\<dots> =
     (if i \<in> set (k # ks)
      then (case u i of Some r \<Rightarrow> if isExpired r now then None else Some r | None \<Rightarrow> None)
      else u i)"
    by (simp add: gc_visit_apply split: option.splits)
  finally show ?case .
qed

lemma fold_gc_visit_Some:
  "fold (gc_visit now) ks u i = Some r \<Longrightarrow> u i = Some r"
  by (simp add: fold_gc_visit split: if_splits option.splits)

text \<open>
  C9. A tick of the sweep loop at time \<open>now\<close>, whatever the order in which \<open>range\<close>
  visits the keys of the unreachable map, leaves in that map exactly the records that
  are not expired at \<open>now\<close>, each unchanged, and leaves the reachable map as it was;
  the sweep does not depend on the reachable map.
\<close>

theorem gcTick_sweeps:
  "set ks = dom (unreachable c) \<Longrightarrow>
     unreachable (gcTick ks now c) i =
       (case unreachable c i of
          Some r \<Rightarrow> if isExpired r now then None else Some r
        | None \<Rightarrow> None) \<and>
     reachable (gcTick ks now c) = reachable c \<and>
     gcTick ks now (c\<lparr>reachable := m\<rparr>) = (gcTick ks now c)\<lparr>reachable := m\<rparr>"
  by (auto simp: gcTick_def fold_gc_visit split: option.splits)

theorem gcTick_sweeps_witness:
  "set [3, 2] = dom (unreachable sample_cache) \<and>
   unreachable (gcTick [3, 2] 200 sample_cache) 2 = None \<and>
   unreachable (gcTick [3, 2] 200 sample_cache) 3 =
     Some \<lparr>Value = ''c'', minTTL = 500, expires = 0, refs = 0, lastUnref = 100\<rparr> \<and>
   reachable (gcTick [3, 2] 200 sample_cache) = reachable sample_cache"
proof -
  have d: "set [3, 2] = dom (unreachable sample_cache)"
    by (simp add: sample_cache_def)
  have e2: "unreachable sample_cache 2 =
      Some \<lparr>Value = ''b'', minTTL = 50, expires = 0, refs = 0, lastUnref = 100\<rparr>"
    by (simp add: sample_cache_def)
  have e3: "unreachable sample_cache 3 =
      Some \<lparr>Value = ''c'', minTTL = 500, expires = 0, refs = 0, lastUnref = 100\<rparr>"
    by (simp add: sample_cache_def)
  have x2: "isExpired \<lparr>Value = ''b'', minTTL = 50, expires = 0, refs = 0, lastUnref = 100\<rparr> 200"
    by (simp add: isExpired_def word_sless_alt)
  have x3: "\<not> isExpired \<lparr>Value = ''c'', minTTL = 500, expires = 0, refs = 0, lastUnref = 100\<rparr> 200"
    by (simp add: isExpired_def word_sless_alt)
  show ?thesis
    using d gcTick_sweeps [OF d, of 200 2] gcTick_sweeps [OF d, of 200 3]
    by (simp add: e2 e3 x2 x3)
qed

section \<open>Fetching\<close>

lemma unat_succ: "(x :: 'a::len word) \<noteq> - 1 \<Longrightarrow> unat (x + 1) = unat x + 1"
  by (simp add: unatSuc add.commute eq_neg_iff_add_eq_0)

lemma get_hit:
  "found i c = Some r \<Longrightarrow> \<not> isExpired r now \<Longrightarrow>
   get i now c = (Some r, c\<lparr>unreachable := (unreachable c)(i := None)\<rparr>)"
  by (cases "unreachable c i")
     (simp_all add: get_def found_def Let_def fun_upd_idem)

lemma fetch_hit:
  "found i c = Some r \<Longrightarrow> \<not> isExpired r now \<Longrightarrow>
   fetch i min_ttl max_ttl produce now (c, w) =
     (Inr (r\<lparr>refs := refs r + 1\<rparr>),
      c\<lparr>reachable := (reachable c)(i \<mapsto> r\<lparr>refs := refs r + 1\<rparr>),
        unreachable := (unreachable c)(i := None)\<rparr>,
      w)"
  by (simp add: fetch_def get_hit store_ref_def Let_def)

text \<open>
  C10. A \<open>Fetch\<close> that finds a record that is not expired, in either map, ignores its
  \<open>minTTL\<close> and \<open>maxTTL\<close> arguments and does not call its producer: the handle and the
  record stored in the reachable map are the record found with \<open>refs\<close> incremented
  (by one, unless the counter was at the largest \<open>uint\<close>) and every other field, so
  \<open>minTTL\<close> and \<open>expires\<close>, as it was.
\<close>

theorem Fetch_hit:
  "found (index h c key) c = Some r \<and> \<not> isExpired r now \<Longrightarrow>
     Fetch h key min_ttl max_ttl produce now (c, w) =
       (Inr (r\<lparr>refs := refs r + 1\<rparr>),
        c\<lparr>reachable := (reachable c)(index h c key \<mapsto> r\<lparr>refs := refs r + 1\<rparr>),
          unreachable := (unreachable c)(index h c key := None)\<rparr>,
        w) \<and>
     minTTL (r\<lparr>refs := refs r + 1\<rparr>) = minTTL r \<and>
     expires (r\<lparr>refs := refs r + 1\<rparr>) = expires r \<and>
     (refs r \<noteq> - 1 \<longrightarrow> unat (refs (r\<lparr>refs := refs r + 1\<rparr>)) = unat (refs r) + 1)"
  by (simp add: Fetch_def fetch_hit unat_succ)

theorem Fetch_hit_witness:
  "found (index sample_hash sample_cache ''abc'') sample_cache =
     Some \<lparr>Value = ''c'', minTTL = 500, expires = 0, refs = 0, lastUnref = 100\<rparr> \<and>
   \<not> isExpired \<lparr>Value = ''c'', minTTL = 500, expires = 0, refs = 0, lastUnref = 100\<rparr> 200 \<and>
   Fetch sample_hash ''abc'' 7 9 (value_producer ''other'') 200 (sample_cache, 0) =
     (Inr \<lparr>Value = ''c'', minTTL = 500, expires = 0, refs = 1, lastUnref = 100\<rparr>,
      sample_cache\<lparr>reachable := (reachable sample_cache)
                      (3 \<mapsto> \<lparr>Value = ''c'', minTTL = 500, expires = 0, refs = 1, lastUnref = 100\<rparr>),
                   unreachable := (unreachable sample_cache)(3 := None)\<rparr>,
      0)"
proof -
  have i: "index sample_hash sample_cache ''abc'' = 3"
    by (simp add: index_def sample_hash_def sample_cache_def)
  have f: "found (index sample_hash sample_cache ''abc'') sample_cache =
      Some \<lparr>Value = ''c'', minTTL = 500, expires = 0, refs = 0, lastUnref = 100\<rparr>"
    unfolding i by (simp add: found_def sample_cache_def)
  have x: "\<not> isExpired \<lparr>Value = ''c'', minTTL = 500, expires = 0, refs = 0, lastUnref = 100\<rparr> 200"
    by (simp add: isExpired_def word_sless_alt)
  show ?thesis
    using f x Fetch_hit [OF conjI [OF f x], of 7 9 "value_producer ''other''" 0]
    by (simp add: i)
qed

lemma get_New: "get i now (New gi sd) = (None, New gi sd)"
  by (simp add: get_def New_def)

lemma fetch_New_ok:
  "produce w = (Inr v, w') \<Longrightarrow>
   fetch i min_ttl max_ttl produce now (New gi sd, w) =
     (Inr \<lparr>Value = v, minTTL = min_ttl,
            expires = (if 0 <s max_ttl then now + max_ttl else 0), refs = 1, lastUnref = 0\<rparr>,
      (New gi sd)\<lparr>reachable :=
         [i \<mapsto> \<lparr>Value = v, minTTL = min_ttl,
                   expires = (if 0 <s max_ttl then now + max_ttl else 0),
                   refs = 1, lastUnref = 0\<rparr>]\<rparr>,
      w')"
  by (simp add: fetch_def get_New store_ref_def Let_def) (simp add: New_def)

lemma fetch_New_world:
  "snd (snd (fetch i min_ttl max_ttl produce now (New gi sd, w))) = snd (produce w)"
  by (cases "produce w")
     (simp add: fetch_def get_New store_ref_def Let_def split: sum.splits)

text \<open>
  C8. On the empty cache, \<open>Fetch\<close> calls its producer exactly once: the state of
  the program afterwards is the one a single call of the producer leaves. When the
  producer succeeds with \<open>v\<close>, the handle and the only record of the cache hold \<open>v\<close>,
  the given \<open>minTTL\<close>, the expiry \<open>now + maxTTL\<close> (in \<open>int64\<close>) when \<open>maxTTL > 0\<close>
  and the unset expiry 0 otherwise, \<open>refs = 1\<close> and no \<open>lastUnref\<close>, and \<open>Len\<close> is 1.
\<close>

theorem Fetch_New:
  "snd (snd (Fetch h key min_ttl max_ttl produce now (New gi sd, w))) = snd (produce w) \<and>
   (fst (produce w) = Inr v \<longrightarrow>
      Fetch h key min_ttl max_ttl produce now (New gi sd, w) =
        (Inr \<lparr>Value = v, minTTL = min_ttl,
               expires = (if 0 <s max_ttl then now + max_ttl else 0), refs = 1, lastUnref = 0\<rparr>,
         (New gi sd)\<lparr>reachable :=
            [h sd key \<mapsto> \<lparr>Value = v, minTTL = min_ttl,
                            expires = (if 0 <s max_ttl then now + max_ttl else 0),
                            refs = 1, lastUnref = 0\<rparr>]\<rparr>,
         snd (produce w)) \<and>
      Len (fst (snd (Fetch h key min_ttl max_ttl produce now (New gi sd, w)))) = 1)"
proof -
  have i: "index h (New gi sd) key = h sd key"
    by (simp add: index_def New_def)
  have a: "snd (snd (Fetch h key min_ttl max_ttl produce now (New gi sd, w))) = snd (produce w)"
    by (simp add: Fetch_def fetch_New_world)
  have b: "Fetch h key min_ttl max_ttl produce now (New gi sd, w) =
        (Inr \<lparr>Value = v, minTTL = min_ttl,
               expires = (if 0 <s max_ttl then now + max_ttl else 0), refs = 1, lastUnref = 0\<rparr>,
         (New gi sd)\<lparr>reachable :=
            [h sd key \<mapsto> \<lparr>Value = v, minTTL = min_ttl,
                            expires = (if 0 <s max_ttl then now + max_ttl else 0),
                            refs = 1, lastUnref = 0\<rparr>]\<rparr>,
         snd (produce w))"
    if "fst (produce w) = Inr v"
  proof -
    from that have "produce w = (Inr v, snd (produce w))"
      by (metis prod.collapse)
    then show ?thesis
      unfolding Fetch_def fst_conv i by (rule fetch_New_ok)
  qed
  have c: "Len (fst (snd (Fetch h key min_ttl max_ttl produce now (New gi sd, w)))) = 1"
    if "fst (produce w) = Inr v"
    by (simp add: b [OF that] Len_def) (simp add: New_def)
  from a b c show ?thesis by blast
qed

theorem Fetch_New_witness:
  "fst (value_producer ''value'' 0) = Inr ''value'' \<and>
   Fetch sample_hash ''key'' 0 0 (value_producer ''value'') 5 (New 10 7, 0) =
     (Inr \<lparr>Value = ''value'', minTTL = 0, expires = 0, refs = 1, lastUnref = 0\<rparr>,
      (New 10 7)\<lparr>reachable :=
         [10 \<mapsto> \<lparr>Value = ''value'', minTTL = 0, expires = 0, refs = 1, lastUnref = 0\<rparr>]\<rparr>,
      1) \<and>
   Fetch sample_hash ''key'' 30 100 (value_producer ''value'') 5 (New 10 7, 0) =
     (Inr \<lparr>Value = ''value'', minTTL = 30, expires = 105, refs = 1, lastUnref = 0\<rparr>,
      (New 10 7)\<lparr>reachable :=
         [10 \<mapsto> \<lparr>Value = ''value'', minTTL = 30, expires = 105, refs = 1, lastUnref = 0\<rparr>]\<rparr>,
      1) \<and>
   Len (fst (snd (Fetch sample_hash ''key'' 0 0 (value_producer ''value'') 5
                   (New 10 7 :: string Cache, 0)))) = 1"
proof -
  have p: "fst (value_producer ''value'' 0) = Inr ''value''"
    by (simp add: value_producer_def)
  have s: "snd (value_producer ''value'' 0) = 1"
    by (simp add: value_producer_def)
  have k: "sample_hash 7 ''key'' = 10"
    by (simp add: sample_hash_def)
  have m: "(0::int64) <s 100"
    by (simp add: word_sless_alt)
  show ?thesis
    using p
      Fetch_New [of sample_hash "''key''" 0 0 "value_producer ''value''" 5 10 7 0 "''value''"]
      Fetch_New [of sample_hash "''key''" 30 100 "value_producer ''value''" 5 10 7 0 "''value''"]
    by (simp add: s k m Len_def New_def)
qed

lemma get_miss:
  assumes "case found i c of Some r \<Rightarrow> isExpired r now | None \<Rightarrow> True"
  shows "get i now c = (None, evicted i c)"
proof (cases "unreachable c i")
  case None
  note u = None
  show ?thesis
  proof (cases "reachable c i")
    case None
    with u show ?thesis by (simp add: get_def evicted_def fun_upd_idem)
  next
    case (Some r)
    with u assms show ?thesis by (simp add: get_def evicted_def found_def fun_upd_idem)
  qed
next
  case (Some r)
  with assms show ?thesis by (simp add: get_def evicted_def found_def Let_def)
qed

lemma card_dom_delete:
  assumes "finite (dom m)" and "m i \<noteq> None"
  shows "card (dom (m(i := None))) + 1 = card (dom m)"
proof -
  from assms(2) have "i \<in> dom m" by (simp add: domIff)
  with assms(1) have "card (dom m) = Suc (card (dom m - {i}))"
    by (rule card.remove)
  then show ?thesis by simp
qed

lemma evicted_Len:
  assumes fin: "finite_maps c" and f: "found i c \<noteq> None"
  shows "Len (evicted i c) + 1 = Len c"
proof (cases "unreachable c i")
  case None
  with f have "reachable c i \<noteq> None" by (simp add: found_def)
  with fin have "card (dom ((reachable c)(i := None))) + 1 = card (dom (reachable c))"
    by (intro card_dom_delete) (simp_all add: finite_maps_def)
  with None show ?thesis by (simp add: Len_def evicted_def fun_upd_idem)
next
  case (Some a)
  with fin have "card (dom ((unreachable c)(i := None))) + 1 = card (dom (unreachable c))"
    by (intro card_dom_delete) (simp_all add: finite_maps_def)
  with Some show ?thesis by (simp add: Len_def evicted_def)
qed

lemma evicted_absent: "found i c = None \<Longrightarrow> evicted i c = c"
  by (simp add: found_def evicted_def fun_upd_idem split: option.splits)

lemma evicted_sub:
  "reachable (evicted i c) j = Some r \<Longrightarrow> reachable c j = Some r"
  "unreachable (evicted i c) j = Some r \<Longrightarrow> unreachable c j = Some r"
  by (simp_all add: evicted_def split: if_splits)

lemma evicted_other:
  "j \<noteq> i \<Longrightarrow> reachable (evicted i c) j = reachable c j"
  "j \<noteq> i \<Longrightarrow> unreachable (evicted i c) j = unreachable c j"
  by (simp_all add: evicted_def)

lemma fetch_error:
  assumes "produce w = (Inl err, w')"
    and "case found i c of Some r \<Rightarrow> isExpired r now | None \<Rightarrow> True"
  shows "fetch i min_ttl max_ttl produce now (c, w) = (Inl err, evicted i c, w')"
  using assms by (simp add: fetch_def get_miss)

text \<open>
  C4, as amended. When the lookup of a \<open>Fetch\<close> misses and its producer fails, \<open>Fetch\<close>
  returns the producer's error as it is, creates no record and changes no reference
  count: every record of either map afterwards was in that map before, unchanged, and
  no index other than the one looked up is touched. The cache is left as \<open>get\<close> left
  it: when the index held no record it is unchanged and so is \<open>Len\<close>; when it held an
  expired record, that record has been evicted and \<open>Len\<close> is one less.
\<close>

theorem Fetch_error:
  "finite_maps c \<and> produce w = (Inl err, w') \<and>
   (case found (index h c key) c of Some r \<Rightarrow> isExpired r now | None \<Rightarrow> True) \<Longrightarrow>
     Fetch h key min_ttl max_ttl produce now (c, w) = (Inl err, evicted (index h c key) c, w') \<and>
     (reachable (evicted (index h c key) c) j = Some r' \<longrightarrow> reachable c j = Some r') \<and>
     (unreachable (evicted (index h c key) c) j = Some r' \<longrightarrow> unreachable c j = Some r') \<and>
     (j \<noteq> index h c key \<longrightarrow>
        reachable (evicted (index h c key) c) j = reachable c j \<and>
        unreachable (evicted (index h c key) c) j = unreachable c j) \<and>
     (found (index h c key) c = None \<longrightarrow>
        evicted (index h c key) c = c \<and> Len (evicted (index h c key) c) = Len c) \<and>
     (found (index h c key) c \<noteq> None \<longrightarrow> Len (evicted (index h c key) c) + 1 = Len c)"
proof -
  assume a: "finite_maps c \<and> produce w = (Inl err, w') \<and>
   (case found (index h c key) c of Some r \<Rightarrow> isExpired r now | None \<Rightarrow> True)"
  define i where "i = index h c key"
  from a have F: "Fetch h key min_ttl max_ttl produce now (c, w) = (Inl err, evicted i c, w')"
    unfolding Fetch_def fst_conv i_def by (intro fetch_error) simp_all
  from a have L: "found i c \<noteq> None \<longrightarrow> Len (evicted i c) + 1 = Len c"
    unfolding i_def by (blast intro: evicted_Len)
  have N: "found i c = None \<longrightarrow> evicted i c = c \<and> Len (evicted i c) = Len c"
    by (simp add: evicted_absent)
  show ?thesis
    unfolding i_def [symmetric]
    using F L N evicted_sub [of i c j r'] evicted_other [of j i c]
    by blast
qed

lemma key_index: "index sample_hash aged_cache ''key'' = 10"
  "index sample_hash revived_cache ''key'' = 10"
  "index sample_hash (New 10 7) ''key'' = 10"
  by (simp_all add: index_def sample_hash_def aged_cache_def revived_cache_def New_def)

lemma aged_expired:
  "isExpired \<lparr>Value = ''value'', minTTL = 0, expires = 101, refs = 1, lastUnref = 0\<rparr> 200"
  by (simp add: isExpired_def word_sless_alt)

lemma aged_found:
  "found 10 aged_cache =
     Some \<lparr>Value = ''value'', minTTL = 0, expires = 101, refs = 1, lastUnref = 0\<rparr>"
  by (simp add: found_def aged_cache_def New_def)

lemma aged_evicted: "evicted 10 aged_cache = New 10 7"
  by (simp add: evicted_def aged_cache_def New_def)

lemma aged_Len: "Len aged_cache = 1" "Len (New 10 7) = 0"
  by (simp_all add: Len_def aged_cache_def New_def)

theorem Fetch_error_witness:
  "finite_maps aged_cache \<and> error_producer ''boom'' 1 = (Inl ''boom'', 2) \<and>
   isExpired \<lparr>Value = ''value'', minTTL = 0, expires = 101, refs = 1, lastUnref = 0\<rparr> 200 \<and>
   Fetch sample_hash ''key'' 0 0 (error_producer ''boom'') 200 (aged_cache, 1) =
     (Inl ''boom'', New 10 7, 2) \<and>
   Len (New 10 7 :: string Cache) + 1 = Len aged_cache"
proof -
  have f: "finite_maps aged_cache"
    by (simp add: finite_maps_def aged_cache_def New_def)
  have p: "error_producer ''boom'' 1 = (Inl ''boom'', 2)"
    by (simp add: error_producer_def)
  have m: "case found (index sample_hash aged_cache ''key'') aged_cache of
             Some r \<Rightarrow> isExpired r 200 | None \<Rightarrow> True"
    by (simp add: key_index aged_found aged_expired)
  show ?thesis
    using f p m aged_expired
      Fetch_error [where c = aged_cache and produce = "error_producer ''boom''" and w = 1
        and err = "''boom''" and w' = 2 and h = sample_hash and key = "''key''" and now = 200
        and min_ttl = 0 and max_ttl = 0 and j = 10]
    by (simp add: key_index aged_found aged_evicted)
qed

text \<open>
  C4 as stated fails: the \<open>Fetch\<close> of \<open>TestMaxTTL\<close> at time 200, given a producer
  that fails, returns the error, and the expired record has been deleted on the way:
  \<open>Len\<close> was 1 and is 0.
\<close>

theorem Fetch_error_evicts:
  "Len aged_cache = 1 \<and>
   Fetch sample_hash ''key'' 0 0 (error_producer ''boom'') 200 (aged_cache, 1) =
     (Inl ''boom'', New 10 7, 2) \<and>
   Len (New 10 7 :: string Cache) = 0"
proof -
  have "get 10 200 aged_cache = (None, New 10 7)"
    by (simp add: get_def aged_cache_def New_def aged_expired)
  then have "Fetch sample_hash ''key'' 0 0 (error_producer ''boom'') 200 (aged_cache, 1) =
     (Inl ''boom'', New 10 7, 2)"
    by (simp add: Fetch_def key_index fetch_def error_producer_def)
  then show ?thesis by (simp add: aged_Len)
qed

section \<open>Closing\<close>

lemma get_quit:
  "get i now (c\<lparr>quit := q\<rparr>) = (fst (get i now c), (snd (get i now c))\<lparr>quit := q\<rparr>)"
  by (simp add: get_def Let_def split: option.splits)

lemma store_ref_quit:
  "store_ref i r (c\<lparr>quit := q\<rparr>) = (fst (store_ref i r c), (snd (store_ref i r c))\<lparr>quit := q\<rparr>)"
  by (simp add: store_ref_def Let_def)

lemma fetch_quit:
  "fetch i min_ttl max_ttl produce now (c\<lparr>quit := q\<rparr>, w) =
     (case fetch i min_ttl max_ttl produce now (c, w) of
        (res, c', w') \<Rightarrow> (res, c'\<lparr>quit := q\<rparr>, w'))"
  by (cases "get i now c")
     (simp add: fetch_def get_quit store_ref_quit Let_def
           split: option.splits sum.splits prod.splits)

text \<open>
  C3, as amended. A \<open>Close\<close> on a cache whose \<open>quit\<close> channel is open does not panic: it
  closes the channel, which stops the sweep loop, and leaves the maps as they are and
  usable, \<open>Len\<close> and \<open>Fetch\<close> working as before. There is no guard: a second \<open>Close\<close>
  on the same cache panics.
\<close>

theorem Close_once:
  "quit c = Open \<Longrightarrow>
     Close c = Inr (c\<lparr>quit := Closed\<rparr>) \<and>
     reachable (c\<lparr>quit := Closed\<rparr>) = reachable c \<and>
     unreachable (c\<lparr>quit := Closed\<rparr>) = unreachable c \<and>
     Len (c\<lparr>quit := Closed\<rparr>) = Len c \<and>
     Fetch h key min_ttl max_ttl produce now (c\<lparr>quit := Closed\<rparr>, w) =
       (case Fetch h key min_ttl max_ttl produce now (c, w) of
          (res, c', w') \<Rightarrow> (res, c'\<lparr>quit := Closed\<rparr>, w')) \<and>
     Close (c\<lparr>quit := Closed\<rparr>) = Inl CloseOfClosedChannel"
  by (simp add: Close_def Len_def Fetch_def index_def fetch_quit)

theorem Close_once_witness:
  "quit (New 10 7 :: string Cache) = Open \<and>
   Close (New 10 7 :: string Cache) = Inr ((New 10 7)\<lparr>quit := Closed\<rparr>) \<and>
   Len ((New 10 7 :: string Cache)\<lparr>quit := Closed\<rparr>) = 0 \<and>
   Close ((New 10 7 :: string Cache)\<lparr>quit := Closed\<rparr>) = Inl CloseOfClosedChannel"
proof -
  have q: "quit (New 10 7 :: string Cache) = Open"
    by (simp add: New_def)
  have l: "Len (New 10 7 :: string Cache) = 0"
    by (simp add: Len_def New_def)
  show ?thesis
    using q Close_once [OF q, of sample_hash "''key''" 0 0 "value_producer ''value''" 5 0]
    by (simp add: l)
qed

text \<open>C3 as stated fails: the second \<open>Close\<close> on a new cache panics.\<close>

theorem Close_twice_panics:
  "Close (New 10 7 :: string Cache) = Inr ((New 10 7)\<lparr>quit := Closed\<rparr>) \<and>
   Close ((New 10 7 :: string Cache)\<lparr>quit := Closed\<rparr>) = Inl CloseOfClosedChannel"
  by (simp add: Close_def New_def)

section \<open>Invariants of the executions\<close>

lemma one_le_word_iff: "(1 :: 'a::len word) \<le> x \<longleftrightarrow> x \<noteq> 0"
  by (simp add: word_le_nat_alt unat_eq_zero Suc_le_eq unat_gt_0)

lemma word_succ_neq_0: "(x :: 'a::len word) \<noteq> - 1 \<Longrightarrow> x + 1 \<noteq> 0"
  by (simp add: eq_neg_iff_add_eq_0)

lemma disjoint_maps_iff:
  "disjoint_maps c \<longleftrightarrow> (\<forall>i. reachable c i = None \<or> unreachable c i = None)"
  by (simp add: disjoint_maps_def disjoint_iff domIff imp_conv_disj)

lemma Fetch_disjoint:
  "disjoint_maps (fst s) \<Longrightarrow> disjoint_maps (fst (snd (Fetch h key mn mx p now s)))"
  by (cases s)
     (auto simp: disjoint_maps_iff Fetch_def fetch_def get_def store_ref_def Let_def
           split: option.splits sum.splits prod.splits if_splits)

lemma unref_disjoint:
  assumes "disjoint_maps c"
  shows "disjoint_maps (unref i now c)"
proof -
  from assms have d: "reachable c j = None \<or> unreachable c j = None" for j
    by (simp add: disjoint_maps_iff)
  show ?thesis
    unfolding disjoint_maps_iff
  proof
    fix j
    show "reachable (unref i now c) j = None \<or> unreachable (unref i now c) j = None"
      using d [of j] d [of i]
      by (auto simp: unref_def Let_def split: option.splits)
  qed
qed

lemma gcTick_disjoint:
  assumes "disjoint_maps c"
  shows "disjoint_maps (gcTick ks now c)"
proof -
  from assms have d: "reachable c j = None \<or> unreachable c j = None" for j
    by (simp add: disjoint_maps_iff)
  show ?thesis
    unfolding disjoint_maps_iff
  proof
    fix j
    show "reachable (gcTick ks now c) j = None \<or> unreachable (gcTick ks now c) j = None"
      using d [of j] fold_gc_visit_Some [of now ks "unreachable c" j]
      by (cases "fold (gc_visit now) ks (unreachable c) j") (auto simp: gcTick_def)
  qed
qed

lemma step_disjoint: "disjoint_maps (fst s) \<Longrightarrow> disjoint_maps (fst (step h x s))"
proof (cases x)
  case (OpFetch key mn mx p now)
  assume "disjoint_maps (fst s)"
  then show ?thesis using OpFetch by (simp add: Fetch_disjoint)
next
  case (OpUnref i now)
  assume "disjoint_maps (fst s)"
  then show ?thesis using OpUnref by (simp add: unref_disjoint)
next
  case (OpTick ks now)
  assume "disjoint_maps (fst s)"
  then show ?thesis using OpTick by (simp add: gcTick_disjoint)
next
  case OpClose
  assume "disjoint_maps (fst s)"
  then show ?thesis using OpClose
    by (simp add: Close_def disjoint_maps_def split: chan.splits)
qed

lemma run_disjoint: "disjoint_maps (fst s) \<Longrightarrow> disjoint_maps (fst (run h xs s))"
  by (induction xs arbitrary: s) (simp_all add: step_disjoint)

lemma New_disjoint: "disjoint_maps (New gi sd)"
  by (simp add: disjoint_maps_def New_def)

lemma Fetch_refs_inv:
  "refs_inv (fst s) \<Longrightarrow> admissible h (OpFetch key mn mx p now) s \<Longrightarrow>
   refs_inv (fst (snd (Fetch h key mn mx p now s)))"
  by (cases s)
     (auto simp: refs_inv_def Fetch_def fetch_def get_def store_ref_def Let_def found_def
                 one_le_word_iff word_succ_neq_0
           split: option.splits sum.splits prod.splits if_splits)

lemma unref_refs_inv: "refs_inv c \<Longrightarrow> 0 <s now \<Longrightarrow> refs_inv (unref i now c)"
  by (auto simp: refs_inv_def unref_def Let_def one_le_word_iff word_greater_zero_iff
           split: option.splits)

lemma gcTick_refs_inv: "refs_inv c \<Longrightarrow> refs_inv (gcTick ks now c)"
  by (auto simp: refs_inv_def gcTick_def dest: fold_gc_visit_Some)

lemma step_refs_inv:
  "refs_inv (fst s) \<Longrightarrow> admissible h x s \<Longrightarrow> refs_inv (fst (step h x s))"
proof (cases x)
  case (OpFetch key mn mx p now)
  assume "refs_inv (fst s)" "admissible h x s"
  then show ?thesis using OpFetch Fetch_refs_inv [of s h key mn mx p now] by simp
next
  case (OpUnref i now)
  assume "refs_inv (fst s)" "admissible h x s"
  then show ?thesis using OpUnref by (simp add: unref_refs_inv)
next
  case (OpTick ks now)
  assume "refs_inv (fst s)" "admissible h x s"
  then show ?thesis using OpTick by (simp add: gcTick_refs_inv)
next
  case OpClose
  assume "refs_inv (fst s)" "admissible h x s"
  then show ?thesis using OpClose
    by (simp add: Close_def refs_inv_def split: chan.splits)
qed

lemma run_refs_inv:
  "refs_inv (fst s) \<Longrightarrow> admissible_run h xs s \<Longrightarrow> refs_inv (fst (run h xs s))"
  by (induction xs arbitrary: s) (simp_all add: step_refs_inv)

lemma New_refs_inv: "refs_inv (New gi sd)"
  by (simp add: refs_inv_def New_def)

lemma sample_run:
  "run sample_hash sample_ops (New 10 7, 0) =
     ((New 10 7)\<lparr>reachable :=
          [9 \<mapsto> \<lparr>Value = ''x'', minTTL = 0, expires = 0, refs = 1, lastUnref = 0\<rparr>],
        unreachable :=
          [10 \<mapsto> \<lparr>Value = ''value'', minTTL = 100, expires = 0, refs = 0, lastUnref = 2\<rparr>]\<rparr>,
      2)"
proof -
  have s1: "step sample_hash (OpFetch ''key'' 100 0 (value_producer ''value'') 1) (New 10 7, 0) =
      ((New 10 7)\<lparr>reachable :=
          [10 \<mapsto> \<lparr>Value = ''value'', minTTL = 100, expires = 0, refs = 1, lastUnref = 0\<rparr>]\<rparr>, 1)"
    by (simp add: Fetch_def index_def sample_hash_def fetch_def get_def store_ref_def
          value_producer_def New_def Let_def)
  have s2: "step sample_hash (OpFetch ''ab'' 0 0 (value_producer ''x'') 1)
      ((New 10 7)\<lparr>reachable :=
          [10 \<mapsto> \<lparr>Value = ''value'', minTTL = 100, expires = 0, refs = 1, lastUnref = 0\<rparr>]\<rparr>, 1) =
      ((New 10 7)\<lparr>reachable :=
          [10 \<mapsto> \<lparr>Value = ''value'', minTTL = 100, expires = 0, refs = 1, lastUnref = 0\<rparr>,
           9 \<mapsto> \<lparr>Value = ''x'', minTTL = 0, expires = 0, refs = 1, lastUnref = 0\<rparr>]\<rparr>, 2)"
    by (simp add: Fetch_def index_def sample_hash_def fetch_def get_def store_ref_def
          value_producer_def New_def Let_def)
  have s3: "step sample_hash (OpUnref 10 2)
      ((New 10 7)\<lparr>reachable :=
          [10 \<mapsto> \<lparr>Value = ''value'', minTTL = 100, expires = 0, refs = 1, lastUnref = 0\<rparr>,
           9 \<mapsto> \<lparr>Value = ''x'', minTTL = 0, expires = 0, refs = 1, lastUnref = 0\<rparr>]\<rparr>, 2) =
      ((New 10 7)\<lparr>reachable :=
          [9 \<mapsto> \<lparr>Value = ''x'', minTTL = 0, expires = 0, refs = 1, lastUnref = 0\<rparr>],
        unreachable :=
          [10 \<mapsto> \<lparr>Value = ''value'', minTTL = 100, expires = 0, refs = 0, lastUnref = 2\<rparr>]\<rparr>,
      2)"
    by (simp add: unref_def New_def Let_def fun_upd_twist)
  show ?thesis
    by (simp only: sample_ops_def run.simps s1 s2 s3)
qed

lemma sample_admissible: "admissible_run sample_hash sample_ops (New 10 7, 0)"
proof -
  have s1: "step sample_hash (OpFetch ''key'' 100 0 (value_producer ''value'') 1) (New 10 7, 0) =
      ((New 10 7)\<lparr>reachable :=
          [10 \<mapsto> \<lparr>Value = ''value'', minTTL = 100, expires = 0, refs = 1, lastUnref = 0\<rparr>]\<rparr>, 1)"
    by (simp add: Fetch_def index_def sample_hash_def fetch_def get_def store_ref_def
          value_producer_def New_def Let_def)
  have a1: "admissible sample_hash (OpFetch ''key'' 100 0 (value_producer ''value'') 1) (New 10 7, 0)"
    by (simp add: found_def New_def)
  have a2: "admissible sample_hash (OpFetch ''ab'' 0 0 (value_producer ''x'') 1)
      ((New 10 7)\<lparr>reachable :=
          [10 \<mapsto> \<lparr>Value = ''value'', minTTL = 100, expires = 0, refs = 1, lastUnref = 0\<rparr>]\<rparr>, 1)"
    by (simp add: found_def New_def index_def sample_hash_def)
  have a3: "admissible sample_hash (OpUnref 10 2) s" for s :: "string Cache \<times> nat"
    by (simp add: word_sless_alt)
  show ?thesis
    by (simp only: sample_ops_def admissible_run.simps s1 a1 a2 a3 simp_thms)
qed

text \<open>
  C5. In every state that any sequence of \<open>Fetch\<close>, \<open>unref\<close>, sweep ticks and \<open>Close\<close>
  reaches from a new cache, no index is a key of both maps.
\<close>

theorem maps_disjoint:
  "dom (reachable (fst (run h ops (New gi sd, w0)))) \<inter>
   dom (unreachable (fst (run h ops (New gi sd, w0)))) = {}"
  using run_disjoint [of "(New gi sd, w0)" h ops]
  by (simp add: New_disjoint) (simp add: disjoint_maps_def)

theorem maps_disjoint_witness:
  "dom (reachable (fst (run sample_hash sample_ops (New 10 7, 0)))) = {9} \<and>
   dom (unreachable (fst (run sample_hash sample_ops (New 10 7, 0)))) = {10} \<and>
   {9 :: uint64} \<inter> {10} = {}"
  using maps_disjoint [of sample_hash sample_ops 10 7 0]
  by (simp add: sample_run)

text \<open>
  C6. In every state that a sequence of \<open>Fetch\<close>, \<open>unref\<close>, sweep ticks and \<open>Close\<close>
  reaches from a new cache, every record of the reachable map has \<open>refs \<ge> 1\<close>, and
  every record of the unreachable map has \<open>refs = 0\<close> and \<open>lastUnref\<close> set; this in
  the environment of \<open>admissible\<close>: \<open>unref\<close> reads a clock after the Unix epoch, and
  the \<open>uint\<close> counter does not overflow.
\<close>

theorem refs_invariant:
  "admissible_run h ops (New gi sd, w0) \<Longrightarrow>
     (reachable (fst (run h ops (New gi sd, w0))) i = Some r \<longrightarrow> 1 \<le> refs r) \<and>
     (unreachable (fst (run h ops (New gi sd, w0))) i = Some r \<longrightarrow>
        refs r = 0 \<and> 0 <s lastUnref r)"
  using run_refs_inv [of "(New gi sd, w0)" h ops]
  by (simp add: New_refs_inv) (simp add: refs_inv_def)

theorem refs_invariant_witness:
  "admissible_run sample_hash sample_ops (New 10 7, 0) \<and>
   reachable (fst (run sample_hash sample_ops (New 10 7, 0))) 9 =
     Some \<lparr>Value = ''x'', minTTL = 0, expires = 0, refs = 1, lastUnref = 0\<rparr> \<and>
   unreachable (fst (run sample_hash sample_ops (New 10 7, 0))) 10 =
     Some \<lparr>Value = ''value'', minTTL = 100, expires = 0, refs = 0, lastUnref = 2\<rparr> \<and>
   (1 :: uint) \<le> 1 \<and> (0 :: int64) <s 2"
  using sample_admissible
    refs_invariant [OF sample_admissible, of 9
      "\<lparr>Value = ''x'', minTTL = 0, expires = 0, refs = 1, lastUnref = 0\<rparr>"]
    refs_invariant [OF sample_admissible, of 10
      "\<lparr>Value = ''value'', minTTL = 100, expires = 0, refs = 0, lastUnref = 2\<rparr>"]
  by (simp add: sample_run)

section \<open>A second \<open>Fetch\<close> while a handle is held\<close>

lemma fetch_stores_handle:
  "fetch i mn mx p now s = (Inr h1, c1, w1) \<Longrightarrow> reachable c1 i = Some h1 \<and> seed c1 = seed (fst s)"
  by (cases s)
     (auto simp: fetch_def get_def store_ref_def Let_def
           split: option.splits sum.splits prod.splits if_splits)

lemma disjoint_mapsD:
  "disjoint_maps c \<Longrightarrow> reachable c i = Some r \<Longrightarrow> unreachable c i = None"
  by (metis disjoint_maps_iff option.distinct(1))

lemma reachable_found:
  "disjoint_maps c \<Longrightarrow> reachable c i = Some r \<Longrightarrow> found i c = Some r"
  by (simp add: found_def disjoint_mapsD)

lemma live_not_expired:
  "lastUnref r = 0 \<Longrightarrow> \<not> (0 <s expires r \<and> expires r <s now) \<Longrightarrow> \<not> isExpired r now"
  by (simp add: isExpired_def)

text \<open>
  C1, as amended. A successful \<open>Fetch\<close> stores in the reachable map, at the index of
  its key, the very record it returns. In any state reached from a new cache, while
  the record at the index of \<open>key\<close> in the reachable map has no \<open>lastUnref\<close> and its
  expiry is unset or not before \<open>now\<close>, a \<open>Fetch\<close> of \<open>key\<close> at \<open>now\<close> does not call its
  producer (the state of the program is unchanged) and returns that record, so its
  \<open>Value\<close>, with \<open>refs\<close> incremented.
\<close>

theorem Fetch_again:
  "(Fetch h key mn' mx' p' now' s' = (Inr r', c', w') \<longrightarrow>
      reachable c' (index h c' key) = Some r') \<and>
   (run h ops (New gi sd, w0) = (c, w) \<and> reachable c (index h c key) = Some r \<and>
    lastUnref r = 0 \<and> \<not> (0 <s expires r \<and> expires r <s now) \<longrightarrow>
      Fetch h key mn mx p now (c, w) =
        (Inr (r\<lparr>refs := refs r + 1\<rparr>),
         c\<lparr>reachable := (reachable c)(index h c key \<mapsto> r\<lparr>refs := refs r + 1\<rparr>)\<rparr>,
         w) \<and>
      Value (r\<lparr>refs := refs r + 1\<rparr>) = Value r)"
proof (intro conjI impI)
  assume "Fetch h key mn' mx' p' now' s' = (Inr r', c', w')"
  then have "reachable c' (index h (fst s') key) = Some r' \<and> seed c' = seed (fst s')"
    unfolding Fetch_def by (rule fetch_stores_handle)
  then show "reachable c' (index h c' key) = Some r'"
    by (simp add: index_def)
next
  assume a: "run h ops (New gi sd, w0) = (c, w) \<and> reachable c (index h c key) = Some r \<and>
    lastUnref r = 0 \<and> \<not> (0 <s expires r \<and> expires r <s now)"
  have "disjoint_maps (fst (run h ops (New gi sd, w0)))"
    by (rule run_disjoint) (simp add: New_disjoint)
  with a have d: "disjoint_maps c" by simp
  with a have f: "found (index h c key) c = Some r"
    by (simp add: reachable_found)
  from d a have u: "unreachable c (index h c key) = None"
    by (blast intro: disjoint_mapsD)
  from a have x: "\<not> isExpired r now"
    by (simp add: live_not_expired)
  have "fetch (index h c key) mn mx p now (c, w) =
     (Inr (r\<lparr>refs := refs r + 1\<rparr>),
      c\<lparr>reachable := (reachable c)(index h c key \<mapsto> r\<lparr>refs := refs r + 1\<rparr>),
        unreachable := (unreachable c)(index h c key := None)\<rparr>,
      w)"
    using f x by (rule fetch_hit)
  then show "Fetch h key mn mx p now (c, w) =
        (Inr (r\<lparr>refs := refs r + 1\<rparr>),
         c\<lparr>reachable := (reachable c)(index h c key \<mapsto> r\<lparr>refs := refs r + 1\<rparr>)\<rparr>,
         w)"
    using u by (simp add: Fetch_def fun_upd_idem)
next
  show "Value (r\<lparr>refs := refs r + 1\<rparr>) = Value r" by simp
qed

lemma first_Fetch:
  "Fetch sample_hash ''key'' 0 100 (value_producer ''value'') 1 (New 10 7, 0) =
     (Inr \<lparr>Value = ''value'', minTTL = 0, expires = 101, refs = 1, lastUnref = 0\<rparr>,
      aged_cache, 1)"
  by (simp add: Fetch_def index_def sample_hash_def fetch_def get_def store_ref_def
        value_producer_def New_def Let_def aged_cache_def word_sless_alt)

lemma aged_run:
  "run sample_hash [OpFetch ''key'' 0 100 (value_producer ''value'') 1] (New 10 7, 0) =
     (aged_cache, 1)"
  by (simp only: run.simps step.simps first_Fetch snd_conv)

lemma aged_reachable:
  "reachable aged_cache 10 =
     Some \<lparr>Value = ''value'', minTTL = 0, expires = 101, refs = 1, lastUnref = 0\<rparr>"
  by (simp add: aged_cache_def New_def)

theorem Fetch_again_witness:
  "Fetch sample_hash ''key'' 0 100 (value_producer ''value'') 1 (New 10 7, 0) =
     (Inr \<lparr>Value = ''value'', minTTL = 0, expires = 101, refs = 1, lastUnref = 0\<rparr>,
      aged_cache, 1) \<and>
   run sample_hash [OpFetch ''key'' 0 100 (value_producer ''value'') 1] (New 10 7, 0) =
     (aged_cache, 1) \<and>
   reachable aged_cache (index sample_hash aged_cache ''key'') =
     Some \<lparr>Value = ''value'', minTTL = 0, expires = 101, refs = 1, lastUnref = 0\<rparr> \<and>
   \<not> (0 <s (101 :: int64) \<and> (101 :: int64) <s 50) \<and>
   Fetch sample_hash ''key'' 0 0 (value_producer ''new value'') 50 (aged_cache, 1) =
     (Inr \<lparr>Value = ''value'', minTTL = 0, expires = 101, refs = 2, lastUnref = 0\<rparr>,
      aged_cache\<lparr>reachable := (reachable aged_cache)
        (10 \<mapsto> \<lparr>Value = ''value'', minTTL = 0, expires = 101, refs = 2, lastUnref = 0\<rparr>)\<rparr>,
      1)"
proof -
  have i: "index sample_hash aged_cache ''key'' = 10"
    by (simp add: index_def sample_hash_def aged_cache_def New_def)
  have n: "\<not> (0 <s (101 :: int64) \<and> (101 :: int64) <s 50)"
    by (simp add: word_sless_alt)
  show ?thesis
    using first_Fetch aged_run aged_reachable n
      Fetch_again [where h = sample_hash and key = "''key''" and mn' = 0 and mx' = 100
        and p' = "value_producer ''value''" and now' = 1 and s' = "(New 10 7, 0)"
        and r' = "\<lparr>Value = ''value'', minTTL = 0, expires = 101, refs = 1, lastUnref = 0\<rparr>"
        and c' = aged_cache and w' = 1
        and ops = "[OpFetch ''key'' 0 100 (value_producer ''value'') 1]"
        and gi = 10 and sd = 7 and ?w0.0 = 0 and c = aged_cache and w = 1
        and r = "\<lparr>Value = ''value'', minTTL = 0, expires = 101, refs = 1, lastUnref = 0\<rparr>"
        and now = 50 and mn = 0 and mx = 0 and p = "value_producer ''new value''"]
    by (simp add: i)
qed

text \<open>
  C1 as stated fails, as \<open>TestMaxTTL\<close> has it: the handle of the first \<open>Fetch\<close> is
  still held (no \<open>unref\<close> has run, the record is in the reachable map with \<open>refs = 1\<close>),
  and the \<open>Fetch\<close> at time 200, after the expiry 101, calls its producer, which makes
  the second call counted, and returns the new value.
\<close>

theorem Fetch_again_expired:
  "run sample_hash [OpFetch ''key'' 0 100 (value_producer ''value'') 1] (New 10 7, 0) =
     (aged_cache, 1) \<and>
   reachable aged_cache (index sample_hash aged_cache ''key'') =
     Some \<lparr>Value = ''value'', minTTL = 0, expires = 101, refs = 1, lastUnref = 0\<rparr> \<and>
   Fetch sample_hash ''key'' 0 0 (value_producer ''new value'') 200 (aged_cache, 1) =
     (Inr \<lparr>Value = ''new value'', minTTL = 0, expires = 0, refs = 1, lastUnref = 0\<rparr>,
      (New 10 7)\<lparr>reachable :=
        [10 \<mapsto> \<lparr>Value = ''new value'', minTTL = 0, expires = 0, refs = 1, lastUnref = 0\<rparr>]\<rparr>,
      2)"
proof -
  have i: "index sample_hash aged_cache ''key'' = 10"
    by (simp add: index_def sample_hash_def aged_cache_def New_def)
  have g: "get 10 200 aged_cache = (None, New 10 7)"
    by (simp add: get_def aged_cache_def New_def aged_expired)
  have "Fetch sample_hash ''key'' 0 0 (value_producer ''new value'') 200 (aged_cache, 1) =
     (Inr \<lparr>Value = ''new value'', minTTL = 0, expires = 0, refs = 1, lastUnref = 0\<rparr>,
      (New 10 7)\<lparr>reachable :=
        [10 \<mapsto> \<lparr>Value = ''new value'', minTTL = 0, expires = 0, refs = 1, lastUnref = 0\<rparr>]\<rparr>,
      2)"
    by (simp add: Fetch_def i fetch_def g value_producer_def store_ref_def Let_def)
       (simp add: New_def)
  then show ?thesis
    using aged_run aged_reachable by (simp add: i)
qed

section \<open>A record taken back from the unreachable map\<close>

lemma revive_steps:
  "step sample_hash (OpFetch ''key'' 100 0 (value_producer ''value'') 1) (New 10 7, 0) =
     ((New 10 7)\<lparr>reachable :=
        [10 \<mapsto> \<lparr>Value = ''value'', minTTL = 100, expires = 0, refs = 1, lastUnref = 0\<rparr>]\<rparr>, 1)"
  "step sample_hash (OpUnref 10 2)
     ((New 10 7)\<lparr>reachable :=
        [10 \<mapsto> \<lparr>Value = ''value'', minTTL = 100, expires = 0, refs = 1, lastUnref = 0\<rparr>]\<rparr>, 1) =
     ((New 10 7)\<lparr>unreachable :=
        [10 \<mapsto> \<lparr>Value = ''value'', minTTL = 100, expires = 0, refs = 0, lastUnref = 2\<rparr>]\<rparr>, 1)"
  "step sample_hash (OpFetch ''key'' 100 0 (value_producer ''unused'') 3)
     ((New 10 7)\<lparr>unreachable :=
        [10 \<mapsto> \<lparr>Value = ''value'', minTTL = 100, expires = 0, refs = 0, lastUnref = 2\<rparr>]\<rparr>, 1) =
     (revived_cache, 1)"
  by (simp_all add: Fetch_def index_def sample_hash_def fetch_def get_def store_ref_def
        unref_def value_producer_def New_def Let_def revived_cache_def isExpired_def
        word_sless_alt)

lemma revive_admissible:
  "admissible sample_hash (OpFetch ''key'' 100 0 (value_producer ''value'') 1) (New 10 7, 0)"
  "admissible sample_hash (OpUnref 10 2) s"
  "admissible sample_hash (OpFetch ''key'' 100 0 (value_producer ''unused'') 3)
     ((New 10 7)\<lparr>unreachable :=
        [10 \<mapsto> \<lparr>Value = ''value'', minTTL = 100, expires = 0, refs = 0, lastUnref = 2\<rparr>]\<rparr>, 1)"
  by (simp_all add: found_def index_def sample_hash_def New_def word_sless_alt)

text \<open>
  C2 fails on the code. In \<open>TestMinTTL\<close> the record is fetched at time 1 with
  \<open>minTTL = 100\<close>, its handle is collected at time 2, and the second \<open>Fetch\<close> at time 3
  takes the record back from the unreachable map: \<open>fetch\<close> only increments \<open>refs\<close>, so
  the record stored in the reachable map keeps \<open>lastUnref = 2\<close>. While the second handle
  is held, the grace-period clause of \<open>isExpired\<close> holds of this reachable record from
  time 103 on, and a \<open>Fetch\<close> at time 103 evicts it and calls its producer.
\<close>

theorem revived_keeps_lastUnref:
  "admissible_run sample_hash
     [OpFetch ''key'' 100 0 (value_producer ''value'') 1, OpUnref 10 2,
      OpFetch ''key'' 100 0 (value_producer ''unused'') 3] (New 10 7, 0) \<and>
   run sample_hash
     [OpFetch ''key'' 100 0 (value_producer ''value'') 1, OpUnref 10 2,
      OpFetch ''key'' 100 0 (value_producer ''unused'') 3] (New 10 7, 0) = (revived_cache, 1) \<and>
   reachable revived_cache 10 =
     Some \<lparr>Value = ''value'', minTTL = 100, expires = 0, refs = 1, lastUnref = 2\<rparr> \<and>
   isExpired \<lparr>Value = ''value'', minTTL = 100, expires = 0, refs = 1, lastUnref = 2\<rparr> 103 \<and>
   Fetch sample_hash ''key'' 100 0 (value_producer ''again'') 103 (revived_cache, 1) =
     (Inr \<lparr>Value = ''again'', minTTL = 100, expires = 0, refs = 1, lastUnref = 0\<rparr>,
      (New 10 7)\<lparr>reachable :=
        [10 \<mapsto> \<lparr>Value = ''again'', minTTL = 100, expires = 0, refs = 1, lastUnref = 0\<rparr>]\<rparr>,
      2)"
proof -
  have a: "admissible_run sample_hash
     [OpFetch ''key'' 100 0 (value_producer ''value'') 1, OpUnref 10 2,
      OpFetch ''key'' 100 0 (value_producer ''unused'') 3] (New 10 7, 0)"
    by (simp only: admissible_run.simps revive_steps revive_admissible simp_thms)
  have r: "run sample_hash
     [OpFetch ''key'' 100 0 (value_producer ''value'') 1, OpUnref 10 2,
      OpFetch ''key'' 100 0 (value_producer ''unused'') 3] (New 10 7, 0) = (revived_cache, 1)"
    by (simp only: run.simps revive_steps)
  have m: "reachable revived_cache 10 =
     Some \<lparr>Value = ''value'', minTTL = 100, expires = 0, refs = 1, lastUnref = 2\<rparr>"
    by (simp add: revived_cache_def New_def)
  have x: "isExpired \<lparr>Value = ''value'', minTTL = 100, expires = 0, refs = 1, lastUnref = 2\<rparr> 103"
    by (simp add: isExpired_def word_sless_alt)
  have g: "get 10 103 revived_cache = (None, New 10 7)"
    by (simp add: get_def revived_cache_def New_def x)
  have i: "index sample_hash revived_cache ''key'' = 10"
    by (simp add: index_def sample_hash_def revived_cache_def New_def)
  have f: "Fetch sample_hash ''key'' 100 0 (value_producer ''again'') 103 (revived_cache, 1) =
     (Inr \<lparr>Value = ''again'', minTTL = 100, expires = 0, refs = 1, lastUnref = 0\<rparr>,
      (New 10 7)\<lparr>reachable :=
        [10 \<mapsto> \<lparr>Value = ''again'', minTTL = 100, expires = 0, refs = 1, lastUnref = 0\<rparr>]\<rparr>,
      2)"
    by (simp add: Fetch_def i fetch_def g value_producer_def store_ref_def Let_def)
       (simp add: New_def)
  from a r m x f show ?thesis by (intro conjI)
qed

end
